theory Spec2Isabelle
  imports Main "HOL-Library.Sublist"
begin

section \<open>JavaScript values and strings\<close>

text \<open>
  Strings are byte strings (\<^typ>\<open>string\<close>). The source only searches them for ASCII
  needles and splits them at an ASCII comma, which reads the same on the UTF-8 bytes as
  on the code units of the JavaScript string. Lower case is taken on the ASCII letters:
  no character outside ASCII has a lower case that puts one of the two needles searched
  in lower case, \<^verbatim>\<open>unavailable\<close> and \<^verbatim>\<open>high demand\<close>, into a string.
\<close>

text \<open>
  \<^verbatim>\<open>String.prototype.toLowerCase\<close>: the letters \<^verbatim>\<open>A\<close> to \<^verbatim>\<open>Z\<close> (the bytes 65 to 90) move
  to \<^verbatim>\<open>a\<close> to \<^verbatim>\<open>z\<close>, every other byte stays.
\<close>

definition toLowerCase_char :: "char \<Rightarrow> char" where
  "toLowerCase_char c =
     (let n = (of_char c :: nat) in if 65 \<le> n \<and> n \<le> 90 then char_of (n + 32) else c)"

definition toLowerCase :: "string \<Rightarrow> string" where
  "toLowerCase s = map toLowerCase_char s"

text \<open>\<^verbatim>\<open>String.prototype.includes\<close>: the needle occurs as a contiguous run.\<close>

fun str_includes :: "string \<Rightarrow> string \<Rightarrow> bool" where
  "str_includes [] needle = (needle = [])"
| "str_includes (c # cs) needle = (prefix needle (c # cs) \<or> str_includes cs needle)"

text \<open>
  \<^verbatim>\<open>String.prototype.split\<close> at a one-character separator: the empty string splits into
  one empty segment, and each separator starts a new segment.
\<close>

fun split :: "char \<Rightarrow> string \<Rightarrow> string list" where
  "split sep [] = [[]]"
| "split sep (c # cs) =
     (if c = sep then [] # split sep cs
      else (case split sep cs of
              [] \<Rightarrow> [[c]]
            | w # ws \<Rightarrow> (c # w) # ws))"

text \<open>\<^verbatim>\<open>Array.prototype.join\<close> on an array of strings.\<close>

fun join :: "string \<Rightarrow> string list \<Rightarrow> string" where
  "join sep [] = []"
| "join sep [x] = x"
| "join sep (x # y # ys) = x @ sep @ join sep (y # ys)"

text \<open>
  The value of a property of a thrown value. A property that is absent is \<open>Undefined\<close>;
  \<open>Num\<close> is an integral number and \<open>BigInt\<close> a bigint; \<open>Other\<close> stands for every value that
  is left: an object, an array, a function, a symbol, a number that is neither integral
  nor \<^verbatim>\<open>NaN\<close>.
\<close>

datatype jsval =
  Undefined | Null | Boolean bool | Num int | NaN | BigInt int | Str string | Other

text \<open>What \<^verbatim>\<open>v || w\<close> tests: every value is truthy but the eight falsy ones.\<close>

fun truthy :: "jsval \<Rightarrow> bool" where
  "truthy Undefined = False"
| "truthy Null = False"
| "truthy (Boolean b) = b"
| "truthy (Num n) = (n \<noteq> 0)"
| "truthy NaN = False"
| "truthy (BigInt n) = (n \<noteq> 0)"
| "truthy (Str s) = (s \<noteq> [])"
| "truthy Other = True"

text \<open>
  What can be read off a thrown value \<^verbatim>\<open>err\<close> with \<^verbatim>\<open>err?.status\<close>, \<^verbatim>\<open>err?.code\<close> and
  \<^verbatim>\<open>err?.message\<close>; \<open>ename\<close> is the \<^verbatim>\<open>name\<close> of its error class (\<^verbatim>\<open>Error\<close>,
  \<^verbatim>\<open>SyntaxError\<close>, ...), empty when the value is not an error object. Of \<^verbatim>\<open>undefined\<close>
  and \<^verbatim>\<open>null\<close> all three properties read as undefined.
\<close>

record js_error =
  ename :: string
  status :: jsval
  code :: jsval
  message :: jsval

text \<open>\<^verbatim>\<open>new Error(msg)\<close>\<close>

definition new_Error :: "string \<Rightarrow> js_error" where
  "new_Error msg = \<lparr>ename = ''Error'', status = Undefined, code = Undefined, message = Str msg\<rparr>"

text \<open>What can be read off the value \<^verbatim>\<open>undefined\<close>, when it is thrown.\<close>

definition js_undefined :: js_error where
  "js_undefined = \<lparr>ename = [], status = Undefined, code = Undefined, message = Undefined\<rparr>"

text \<open>What \<^verbatim>\<open>JSON.parse\<close> returns.\<close>

datatype json =
  JNull | JBool bool | JNum int | JStr string | JArr "json list" | JObj "(string \<times> json) list"

section \<open>src/services/gemini.ts\<close>

record NewsItem =
  title :: string
  subTitle :: string
  date :: string
  headline :: string
  content :: "string list"
  staticGk :: "string list"

record input_file =
  data :: string
  mimeType :: string

text \<open>
  One element of \<^verbatim>\<open>contents[0].parts\<close>: a document, or the text part that carries the
  fixed \<^verbatim>\<open>SYSTEM_PROMPT\<close>.
\<close>

datatype part = InlineData string string | SystemPromptText

text \<open>\<^verbatim>\<open>file.data.split(',')[1] || file.data\<close>\<close>

definition inline_payload :: "string \<Rightarrow> string" where
  "inline_payload d =
     (case split CHR '','' d of
        _ # seg # _ \<Rightarrow> if seg \<noteq> [] then seg else d
      | _ \<Rightarrow> d)"

definition file_parts :: "input_file list \<Rightarrow> part list" where
  "file_parts files = map (\<lambda>file. InlineData (inline_payload (data file)) (mimeType file)) files"

text \<open>
  The request. Its \<^verbatim>\<open>config\<close> (the response MIME type and the response schema) is the
  same in every request and is not carried.
\<close>

record request =
  model :: string
  parts :: "part list"

definition requestConfig :: "input_file list \<Rightarrow> request" where
  "requestConfig files =
     \<lparr>model = ''gemini-3-flash-preview'', parts = file_parts files @ [SystemPromptText]\<rparr>"

text \<open>
  The declared \<^verbatim>\<open>responseSchema\<close>: an array of objects whose six required properties are
  four strings and two arrays of strings.
\<close>

fun is_string :: "json \<Rightarrow> bool" where
  "is_string (JStr s) = True"
| "is_string j = False"

fun is_string_array :: "json \<Rightarrow> bool" where
  "is_string_array (JArr xs) = list_all is_string xs"
| "is_string_array j = False"

definition has_property :: "(json \<Rightarrow> bool) \<Rightarrow> (string \<times> json) list \<Rightarrow> string \<Rightarrow> bool" where
  "has_property ty props k = (case map_of props k of None \<Rightarrow> False | Some v \<Rightarrow> ty v)"

fun schema_item :: "json \<Rightarrow> bool" where
  "schema_item (JObj props) =
     (list_all (has_property is_string props) [''title'', ''subTitle'', ''date'', ''headline'']
      \<and> list_all (has_property is_string_array props) [''content'', ''staticGk''])"
| "schema_item j = False"

fun responseSchema :: "json \<Rightarrow> bool" where
  "responseSchema (JArr items) = list_all schema_item items"
| "responseSchema j = False"

text \<open>
  What one call of \<^verbatim>\<open>ai.models.generateContent\<close> does: it returns a response, whose
  \<^verbatim>\<open>text\<close> may be undefined, or it throws.
\<close>

record GenerateContentResponse =
  response_text :: "string option"

datatype outcome = Returns GenerateContentResponse | Throws js_error

text \<open>What the function does to the outside, in order.\<close>

datatype event = GenerateContent request | SetTimeout nat

definition MAX_RETRIES :: nat where
  "MAX_RETRIES = 4"

definition BASE_DELAY_MS :: nat where
  "BASE_DELAY_MS = 5000"

text \<open>\<^verbatim>\<open>response.text || "[]"\<close>\<close>

definition text_or_default :: "GenerateContentResponse \<Rightarrow> string" where
  "text_or_default response =
     (case response_text response of
        None \<Rightarrow> ''[]''
      | Some t \<Rightarrow> if t \<noteq> [] then t else ''[]'')"

definition format_error :: js_error where
  "format_error = new_Error ''Failed to process content into structured format.''"

definition config_error :: js_error where
  "config_error =
     new_Error ''GEMINI_API_KEY is not configured. Please add it to your environment variables.''"

text \<open>
  The body of the outer \<^verbatim>\<open>try\<close>: the call, then the inner \<^verbatim>\<open>try\<close> around
  \<^verbatim>\<open>JSON.parse\<close>, which replaces whatever the parser throws by \<open>format_error\<close>.
  \<^verbatim>\<open>JSON.parse\<close> is the platform's and is a parameter.
\<close>

definition try_body :: "(string \<Rightarrow> js_error + json) \<Rightarrow> outcome \<Rightarrow> js_error + json" where
  "try_body JSON_parse out =
     (case out of
        Throws err \<Rightarrow> Inl err
      | Returns response \<Rightarrow>
          (case JSON_parse (text_or_default response) of
             Inr v \<Rightarrow> Inr v
           | Inl e \<Rightarrow> Inl format_error))"

definition message_includes :: "(string \<Rightarrow> string) \<Rightarrow> js_error \<Rightarrow> string \<Rightarrow> bool" where
  "message_includes f err needle =
     (case message err of Str m \<Rightarrow> str_includes (f m) needle | _ \<Rightarrow> False)"

definition is503 :: "js_error \<Rightarrow> bool" where
  "is503 err =
     (status err = Num 503 \<or>
      code err = Num 503 \<or>
      message_includes (\<lambda>m. m) err ''503'' \<or>
      message_includes toLowerCase err ''unavailable'' \<or>
      message_includes toLowerCase err ''high demand'')"

text \<open>
  The \<^verbatim>\<open>for\<close> loop, from the value \<open>attempt\<close> of its counter. The service is the
  sequence of the outcomes of its calls: the loop makes its call number \<open>attempt\<close> in the
  iteration \<open>attempt\<close>. The result is what the function returns (\<open>Inr\<close>) or throws
  (\<open>Inl\<close>), with the events in order. Console output is not recorded.
\<close>

function retry_loop ::
  "(string \<Rightarrow> js_error + json) \<Rightarrow> (nat \<Rightarrow> outcome) \<Rightarrow> request \<Rightarrow> js_error \<Rightarrow> nat
     \<Rightarrow> (js_error + json) \<times> event list" where
  "retry_loop JSON_parse service req lastError attempt =
     (if attempt < MAX_RETRIES then
        (case try_body JSON_parse (service attempt) of
           Inr v \<Rightarrow> (Inr v, [GenerateContent req])
         | Inl err \<Rightarrow>
             if is503 err \<and> attempt < MAX_RETRIES - 1 then
               (let delay = BASE_DELAY_MS * 2 ^ attempt;
                    (r, evs) = retry_loop JSON_parse service req err (attempt + 1)
                in (r, GenerateContent req # SetTimeout delay # evs))
             else (Inl err, [GenerateContent req]))
      else (Inl lastError, []))"
  by pat_completeness auto
termination
  by (relation "measure (\<lambda>(p, s, r, l, attempt). MAX_RETRIES - attempt)") auto

text \<open>\<^verbatim>\<open>processCurrentAffairs\<close>; \<open>apiKey\<close> is \<^verbatim>\<open>process.env.GEMINI_API_KEY\<close>.\<close>

definition configured :: "string option \<Rightarrow> bool" where
  "configured v = (case v of None \<Rightarrow> False | Some s \<Rightarrow> s \<noteq> [])"

definition processCurrentAffairs ::
  "(string \<Rightarrow> js_error + json) \<Rightarrow> string option \<Rightarrow> (nat \<Rightarrow> outcome) \<Rightarrow> input_file list
     \<Rightarrow> (js_error + json) \<times> event list" where
  "processCurrentAffairs JSON_parse apiKey service files =
     (if \<not> configured apiKey then (Inl config_error, [])
      else retry_loop JSON_parse service (requestConfig files) js_undefined 0)"

section \<open>server.ts: the route /api/sheets/update\<close>

text \<open>The OAuth credentials are opaque here.\<close>

type_synonym Credentials = string

record SessionData =
  tokens :: "Credentials option"

text \<open>
  The request: \<^verbatim>\<open>req.session\<close> and \<^verbatim>\<open>req.body.data\<close>, either of which may be
  undefined. The body is taken at the type the client sends, a \<^verbatim>\<open>NewsItem[]\<close>, for which
  both \<^verbatim>\<open>Array.isArray\<close> tests of the handler hold.
\<close>

record sheets_request =
  session :: "SessionData option"
  body_data :: "NewsItem list option"

text \<open>\<^verbatim>\<open>!req.session || !req.session.tokens\<close> is false.\<close>

definition has_tokens :: "sheets_request \<Rightarrow> bool" where
  "has_tokens req =
     (case session req of
        None \<Rightarrow> False
      | Some s \<Rightarrow> (case tokens s of None \<Rightarrow> False | Some t \<Rightarrow> True))"

text \<open>The one call to the spreadsheet service, \<^verbatim>\<open>sheets.spreadsheets.values.append\<close>.\<close>

datatype sheets_call =
  Append (spreadsheetId: string) (range_A1: string) (valueInputOption: string)
    (requestBody_values: "string list list")

text \<open>
  How the call ends: the promise resolves, or it rejects with a value. The \<^verbatim>\<open>catch\<close> of
  the handler reads \<^verbatim>\<open>error.message\<close> without \<^verbatim>\<open>?.\<close>, which throws when the value is
  \<^verbatim>\<open>undefined\<close> or \<^verbatim>\<open>null\<close>; these two are \<open>RejectsNullish\<close>.
\<close>

datatype append_outcome = Resolves | Rejects js_error | RejectsNullish

datatype response_body = ErrorBody jsval | SuccessBody

record http_response =
  status_code :: nat
  json_body :: response_body

text \<open>One row of \<^verbatim>\<open>values\<close>.\<close>

definition sheet_row :: "NewsItem \<Rightarrow> string list" where
  "sheet_row item =
     [title item,
      subTitle item,
      date item,
      headline item,
      join ''\<newline>'' (content item),
      if length (staticGk item) > 0 then join ''\<newline>'' (staticGk item)
      else ''Not applicable'']"

text \<open>
  The handler. \<open>SPREADSHEET_ID\<close> is \<^verbatim>\<open>process.env.SPREADSHEET_ID\<close>; \<open>sheets_append\<close> says
  how the call to the spreadsheet service ends. The result is the response the handler
  sends, with the calls made to the spreadsheet service; the response is \<open>None\<close> when the
  \<^verbatim>\<open>catch\<close> itself throws and the handler sends nothing.
\<close>

definition sheets_update ::
  "string option \<Rightarrow> (sheets_call \<Rightarrow> append_outcome) \<Rightarrow> sheets_request
     \<Rightarrow> http_response option \<times> sheets_call list" where
  "sheets_update SPREADSHEET_ID sheets_append req =
     (if \<not> has_tokens req then
        (Some \<lparr>status_code = 401, json_body = ErrorBody (Str ''Unauthorized'')\<rparr>, [])
      else
        (case SPREADSHEET_ID of
           None \<Rightarrow>
             (Some \<lparr>status_code = 500,
                    json_body = ErrorBody (Str ''SPREADSHEET_ID is not configured on server'')\<rparr>,
              [])
         | Some sid \<Rightarrow>
             if sid = [] then
               (Some \<lparr>status_code = 500,
                      json_body = ErrorBody (Str ''SPREADSHEET_ID is not configured on server'')\<rparr>,
                [])
             else
               (case body_data req of
                  None \<Rightarrow>
                    (Some \<lparr>status_code = 400, json_body = ErrorBody (Str ''Missing data'')\<rparr>, [])
                | Some items \<Rightarrow>
                    (let vals = map sheet_row items;
                         call = Append sid ''Current Affairs!A:F'' ''USER_ENTERED'' vals
                     in case sheets_append call of
                          Resolves \<Rightarrow> (Some \<lparr>status_code = 200, json_body = SuccessBody\<rparr>, [call])
                        | Rejects error \<Rightarrow>
                            (Some \<lparr>status_code = 500,
                                   json_body =
                                     ErrorBody (if truthy (message error) then message error
                                                else Str ''Failed to update sheet'')\<rparr>,
                             [call])
                        | RejectsNullish \<Rightarrow> (None, [call])))))"

section \<open>Observations on a trace\<close>

fun attempts :: "event list \<Rightarrow> nat" where
  "attempts [] = 0"
| "attempts (GenerateContent req # evs) = Suc (attempts evs)"
| "attempts (SetTimeout ms # evs) = attempts evs"

fun delays :: "event list \<Rightarrow> nat list" where
  "delays [] = []"
| "delays (GenerateContent req # evs) = delays evs"
| "delays (SetTimeout ms # evs) = ms # delays evs"

text \<open>
  The words of the specification for the payload of a file: the text after the first
  comma, and the part of it that ends before the next comma.
\<close>

definition after_first_comma :: "string \<Rightarrow> string" where
  "after_first_comma d = tl (dropWhile (\<lambda>c. c \<noteq> CHR '','') d)"

definition second_segment :: "string \<Rightarrow> string" where
  "second_segment d = takeWhile (\<lambda>c. c \<noteq> CHR '','') (after_first_comma d)"

text \<open>
  \<^verbatim>\<open>JSON.parse\<close> on the texts \<^verbatim>\<open>[]\<close> and \<^verbatim>\<open>{}\<close>, for the concrete runs below; they use
  it on these two texts and on texts that are not JSON, where the platform's parser throws
  a \<^verbatim>\<open>SyntaxError\<close>.
\<close>

definition syntax_error :: js_error where
  "syntax_error =
     \<lparr>ename = ''SyntaxError'', status = Undefined, code = Undefined,
      message = Str ''Unexpected token''\<rparr>"

definition JSON_parse_literals :: "string \<Rightarrow> js_error + json" where
  "JSON_parse_literals s =
     (if s = ''[]'' then Inr (JArr [])
      else if s = ''{}'' then Inr (JObj [])
      else Inl syntax_error)"

text \<open>One failed attempt of the loop with the wait that follows it.\<close>

definition backoff :: "request \<Rightarrow> nat \<Rightarrow> event list" where
  "backoff req i = [GenerateContent req, SetTimeout (BASE_DELAY_MS * 2 ^ i)]"

text \<open>A service that is overloaded for its first \<open>k\<close> calls, for the concrete runs below.\<close>

definition overload_error :: js_error where
  "overload_error =
     \<lparr>ename = ''ApiError'', status = Num 503, code = Undefined,
      message = Str ''The model is overloaded. Please try again later.''\<rparr>"

definition service_after :: "nat \<Rightarrow> outcome \<Rightarrow> nat \<Rightarrow> outcome" where
  "service_after k out n = (if n < k then Throws overload_error else out)"

text \<open>An error of the service that is not an overload, for the concrete runs below.\<close>

definition bad_request_error :: js_error where
  "bad_request_error =
     \<lparr>ename = ''ApiError'', status = Num 400, code = Undefined,
      message = Str ''API key not valid. Please pass a valid API key.''\<rparr>"

text \<open>
  A news item, the request of a connected client and an uploaded file, for the concrete
  runs below.
\<close>

definition sample_item :: NewsItem where
  "sample_item =
     \<lparr>title = ''BANKING & FINANCE'', subTitle = ''RBI'', date = ''18 February 2026'',
      headline = ''RBI keeps the repo rate unchanged'',
      content = [''The repo rate stays at 6.5%.'', ''The stance is neutral.''],
      staticGk = []\<rparr>"

definition sample_request :: sheets_request where
  "sample_request =
     \<lparr>session = Some \<lparr>tokens = Some ''ya29.token''\<rparr>, body_data = Some [sample_item]\<rparr>"

definition pdf_file :: input_file where
  "pdf_file =
     \<lparr>data = ''data:application/pdf;base64,JVBERi0xLjQK'', mimeType = ''application/pdf''\<rparr>"

section \<open>Strings: splitting at the comma, searching\<close>

lemma split_not_Nil: "split sep s \<noteq> []"
  by (induction s) (simp_all split: list.splits)

lemma split_no_separator: "sep \<notin> set s \<Longrightarrow> split sep s = [s]"
  by (induction s) auto

lemma split_first_segment:
  "split sep s =
     takeWhile (\<lambda>c. c \<noteq> sep) s
       # (case dropWhile (\<lambda>c. c \<noteq> sep) s of [] \<Rightarrow> [] | c # rest \<Rightarrow> split sep rest)"
proof (induction s)
  case Nil
  show ?case by simp
next
  case (Cons c cs)
  show ?case
  proof (cases "c = sep")
    case True
    then show ?thesis by simp
  next
    case False
    then show ?thesis
      using Cons.IH by (simp split: list.splits)
  qed
qed

lemma split_second_segment:
  assumes "CHR '','' \<in> set d"
  shows "\<exists>first more. split CHR '','' d = first # second_segment d # more"
proof -
  from assms obtain rest where rest: "dropWhile (\<lambda>c. c \<noteq> CHR '','') d = CHR '','' # rest"
  proof (cases "dropWhile (\<lambda>c. c \<noteq> CHR '','') d")
    case Nil
    with assms show ?thesis by auto
  next
    case (Cons c rest)
    with hd_dropWhile [of "\<lambda>c. c \<noteq> CHR '',''" d] have "c = CHR '',''" by simp
    with Cons that show ?thesis by simp
  qed
  then have seg: "second_segment d = takeWhile (\<lambda>c. c \<noteq> CHR '','') rest"
    by (simp add: second_segment_def after_first_comma_def)
  have "split CHR '','' d = takeWhile (\<lambda>c. c \<noteq> CHR '','') d # split CHR '','' rest"
    using split_first_segment [of "CHR '',''" d] rest by simp
  moreover obtain more where "split CHR '','' rest = takeWhile (\<lambda>c. c \<noteq> CHR '','') rest # more"
    using split_first_segment [of "CHR '',''" rest] by blast
  ultimately show ?thesis
    using seg by simp
qed

lemma inline_payload_no_comma: "CHR '','' \<notin> set d \<Longrightarrow> inline_payload d = d"
  by (simp add: inline_payload_def split_no_separator)

lemma inline_payload_comma:
  assumes "CHR '','' \<in> set d" and "second_segment d \<noteq> []"
  shows "inline_payload d = second_segment d"
  using split_second_segment [OF assms(1)] assms(2) by (auto simp add: inline_payload_def)

text \<open>\<open>str_includes\<close> is the library's contiguous sublist.\<close>

lemma str_includes_sublist: "str_includes s needle \<longleftrightarrow> sublist needle s"
  by (induction s) (simp_all add: sublist_Cons_right)

section \<open>The retry loop, one iteration at a time\<close>


declare retry_loop.simps [simp del]

lemma not_is503_format_error: "\<not> is503 format_error"
  by (simp add: is503_def format_error_def new_Error_def message_includes_def toLowerCase_def toLowerCase_char_def)

lemma retry_loop_returns:
  assumes "attempt < MAX_RETRIES" and "service attempt = Returns response"
    and "JSON_parse (text_or_default response) = Inr v"
  shows "retry_loop JSON_parse service req lastError attempt = (Inr v, [GenerateContent req])"
  using assms by (subst retry_loop.simps) (simp add: try_body_def)

lemma retry_loop_unparsable:
  assumes "attempt < MAX_RETRIES" and "service attempt = Returns response"
    and "JSON_parse (text_or_default response) = Inl e"
  shows "retry_loop JSON_parse service req lastError attempt =
           (Inl format_error, [GenerateContent req])"
  using assms by (subst retry_loop.simps) (simp add: try_body_def not_is503_format_error)

lemma retry_loop_rethrows:
  assumes "attempt < MAX_RETRIES" and "service attempt = Throws err"
    and "\<not> is503 err \<or> attempt = MAX_RETRIES - 1"
  shows "retry_loop JSON_parse service req lastError attempt = (Inl err, [GenerateContent req])"
  using assms by (subst retry_loop.simps) (auto simp add: try_body_def)

lemma retry_loop_retries:
  assumes "attempt < MAX_RETRIES - 1" and "service attempt = Throws err" and "is503 err"
  shows "retry_loop JSON_parse service req lastError attempt =
           (fst (retry_loop JSON_parse service req err (attempt + 1)),
            GenerateContent req # SetTimeout (BASE_DELAY_MS * 2 ^ attempt)
              # snd (retry_loop JSON_parse service req err (attempt + 1)))"
  using assms by (subst retry_loop.simps) (simp add: try_body_def split_beta)

lemma retry_loop_lastError:
  assumes "attempt < MAX_RETRIES"
  shows "retry_loop JSON_parse service req l attempt = retry_loop JSON_parse service req l' attempt"
  using assms by (subst retry_loop.simps, subst (2) retry_loop.simps) simp

lemma retry_loop_transient:
  assumes "attempt + k < MAX_RETRIES"
    and "\<forall>i<k. \<exists>err. service (attempt + i) = Throws err \<and> is503 err"
  shows "retry_loop JSON_parse service req l attempt =
           (fst (retry_loop JSON_parse service req l' (attempt + k)),
            concat (map (backoff req) [attempt..<attempt + k])
              @ snd (retry_loop JSON_parse service req l' (attempt + k)))"
  using assms
proof (induction k arbitrary: attempt l)
  case 0
  then show ?case
    using retry_loop_lastError [of attempt JSON_parse service req l l'] by simp
next
  case (Suc k)
  from Suc.prems(2) obtain err where err: "service attempt = Throws err" "is503 err"
    by force
  have later: "\<forall>i<k. \<exists>err. service (Suc attempt + i) = Throws err \<and> is503 err"
    using Suc.prems(2) by (metis Suc_less_eq add_Suc_right add_Suc_shift)
  have step: "retry_loop JSON_parse service req l attempt =
           (fst (retry_loop JSON_parse service req err (Suc attempt)),
            backoff req attempt @ snd (retry_loop JSON_parse service req err (Suc attempt)))"
    using retry_loop_retries [of attempt service err JSON_parse req l] err Suc.prems(1)
    by (simp add: backoff_def)
  have ih: "retry_loop JSON_parse service req err (Suc attempt) =
           (fst (retry_loop JSON_parse service req l' (Suc attempt + k)),
            concat (map (backoff req) [Suc attempt..<Suc attempt + k])
              @ snd (retry_loop JSON_parse service req l' (Suc attempt + k)))"
    using Suc.IH [of "Suc attempt" err] Suc.prems(1) later by simp
  have upt: "[attempt..<attempt + Suc k] = attempt # [Suc attempt..<Suc attempt + k]"
    by (simp add: upt_conv_Cons)
  show ?case
    unfolding step ih upt by simp
qed

lemma attempts_append: "attempts (xs @ ys) = attempts xs + attempts ys"
  by (induction xs rule: attempts.induct) simp_all

lemma delays_append: "delays (xs @ ys) = delays xs @ delays ys"
  by (induction xs rule: delays.induct) simp_all

lemma attempts_backoff: "attempts (concat (map (backoff req) [a..<a + k])) = k"
  by (induction k) (simp_all add: attempts_append backoff_def)

lemma delays_backoff:
  "delays (concat (map (backoff req) [a..<a + k])) = map (\<lambda>i. BASE_DELAY_MS * 2 ^ i) [a..<a + k]"
  by (induction k) (simp_all add: delays_append backoff_def)


lemma is503_overloaded: "is503 overload_error"
  by (simp add: is503_def overload_error_def)

lemma base_delays:
  assumes "k \<le> 3"
  shows "map (\<lambda>i. BASE_DELAY_MS * 2 ^ i) [0..<k] = take k [5000, 10000, 20000]"
proof -
  from assms consider "k = 0" | "k = 1" | "k = 2" | "k = 3"
    by linarith
  then show ?thesis
    by cases (simp_all add: BASE_DELAY_MS_def upt_rec)
qed

text \<open>From the iteration \<open>attempt\<close> on, the loop waits at most the rest of 5 + 10 + 20 seconds.\<close>

lemma retry_loop_delay_bound:
  "sum_list (delays (snd (retry_loop JSON_parse service req lastError attempt)))
     \<le> BASE_DELAY_MS * (8 - 2 ^ attempt)"
proof (induction JSON_parse service req lastError attempt rule: retry_loop.induct)
  case (1 JSON_parse service req lastError attempt)
  show ?case
  proof (cases "attempt < MAX_RETRIES")
    case False
    then show ?thesis
      by (subst retry_loop.simps) simp
  next
    case True
    show ?thesis
    proof (cases "try_body JSON_parse (service attempt)")
      case (Inr v)
      with True show ?thesis
        by (subst retry_loop.simps) simp
    next
      case (Inl err)
      show ?thesis
      proof (cases "is503 err \<and> attempt < MAX_RETRIES - 1")
        case False
        with True Inl show ?thesis
          by (subst retry_loop.simps) auto
      next
        case retry: True
        then have "attempt = 0 \<or> attempt = 1 \<or> attempt = 2"
          by (auto simp add: MAX_RETRIES_def)
        moreover have "sum_list (delays (snd (retry_loop JSON_parse service req err (attempt + 1))))
                \<le> BASE_DELAY_MS * (8 - 2 ^ (attempt + 1))"
          using "1.IH" [OF True Inl retry refl] .
        ultimately show ?thesis
          using True Inl retry
          by (subst retry_loop.simps) (auto simp add: split_beta BASE_DELAY_MS_def)
      qed
    qed
  qed
qed

text \<open>Every call of the loop sends the request it was given.\<close>

lemma retry_loop_requests:
  "ev \<in> set (snd (retry_loop JSON_parse service req lastError attempt))
     \<Longrightarrow> ev = GenerateContent req \<or> (\<exists>ms. ev = SetTimeout ms)"
proof (induction JSON_parse service req lastError attempt rule: retry_loop.induct)
  case (1 JSON_parse service req lastError attempt)
  show ?case
  proof (cases "attempt < MAX_RETRIES")
    case False
    with "1.prems" show ?thesis
      by (subst (asm) retry_loop.simps) simp
  next
    case True
    show ?thesis
    proof (cases "try_body JSON_parse (service attempt)")
      case (Inr v)
      with True "1.prems" show ?thesis
        by (subst (asm) retry_loop.simps) simp
    next
      case (Inl err)
      show ?thesis
      proof (cases "is503 err \<and> attempt < MAX_RETRIES - 1")
        case False
        with True Inl "1.prems" show ?thesis
          by (subst (asm) retry_loop.simps) auto
      next
        case retry: True
        have "retry_loop JSON_parse service req lastError attempt =
                (fst (retry_loop JSON_parse service req err (attempt + 1)),
                 GenerateContent req # SetTimeout (BASE_DELAY_MS * 2 ^ attempt)
                   # snd (retry_loop JSON_parse service req err (attempt + 1)))"
          using True Inl retry by (subst retry_loop.simps) (simp add: split_beta)
        with "1.prems" have "ev = GenerateContent req
            \<or> ev = SetTimeout (BASE_DELAY_MS * 2 ^ attempt)
            \<or> ev \<in> set (snd (retry_loop JSON_parse service req err (attempt + 1)))"
          by simp
        then show ?thesis
          using "1.IH" [OF True Inl retry refl] by blast
      qed
    qed
  qed
qed

section \<open>The claims\<close>

text \<open>
  C1: when the API key is configured, the first \<open>k \<le> 3\<close> calls fail with a transient
  error and the next call returns a text that parses, \<open>processCurrentAffairs\<close> returns the
  parsed value after exactly \<open>k + 1\<close> calls, and the waits before the retries are
  5000, 10000 and 20000 milliseconds, in this order.
\<close>

theorem retry_then_success:
  assumes "configured apiKey" and "k \<le> 3"
    and "\<forall>i<k. \<exists>err. service i = Throws err \<and> is503 err"
    and "service k = Returns response"
    and "JSON_parse (text_or_default response) = Inr v"
  shows "processCurrentAffairs JSON_parse apiKey service files =
           (Inr v,
            concat (map (backoff (requestConfig files)) [0..<k])
              @ [GenerateContent (requestConfig files)])
         \<and> attempts (snd (processCurrentAffairs JSON_parse apiKey service files)) = k + 1
         \<and> delays (snd (processCurrentAffairs JSON_parse apiKey service files)) =
             take k [5000, 10000, 20000]"
proof -
  let ?req = "requestConfig files"
  have k: "0 + k < MAX_RETRIES"
    using assms(2) by (simp add: MAX_RETRIES_def)
  have final: "retry_loop JSON_parse service ?req js_undefined (0 + k) =
                 (Inr v, [GenerateContent ?req])"
    using retry_loop_returns [of k service response JSON_parse v ?req js_undefined] k assms(4,5)
    by simp
  have run: "processCurrentAffairs JSON_parse apiKey service files =
               (Inr v, concat (map (backoff ?req) [0..<k]) @ [GenerateContent ?req])"
    using retry_loop_transient [of 0 k service JSON_parse ?req js_undefined js_undefined]
      k assms(1,3) final
    by (simp add: processCurrentAffairs_def)
  have "attempts (concat (map (backoff ?req) [0..<k]) @ [GenerateContent ?req]) = k + 1"
    using attempts_backoff [of ?req 0 k] by (simp add: attempts_append)
  moreover have "delays (concat (map (backoff ?req) [0..<k]) @ [GenerateContent ?req]) =
                   take k [5000, 10000, 20000]"
    using delays_backoff [of ?req 0 k] base_delays [OF assms(2)] by (simp add: delays_append)
  ultimately show ?thesis
    using run by simp
qed

theorem retry_then_success_witness:
  "processCurrentAffairs JSON_parse_literals (Some ''key'')
     (service_after 2 (Returns \<lparr>response_text = Some ''[]''\<rparr>)) [] =
     (Inr (JArr []),
      [GenerateContent (requestConfig []), SetTimeout 5000,
       GenerateContent (requestConfig []), SetTimeout 10000,
       GenerateContent (requestConfig [])])
   \<and> attempts (snd (processCurrentAffairs JSON_parse_literals (Some ''key'')
        (service_after 2 (Returns \<lparr>response_text = Some ''[]''\<rparr>)) [])) = 3
   \<and> delays (snd (processCurrentAffairs JSON_parse_literals (Some ''key'')
        (service_after 2 (Returns \<lparr>response_text = Some ''[]''\<rparr>)) [])) = [5000, 10000]"
  using retry_then_success [of "Some ''key''" 2
      "service_after 2 (Returns \<lparr>response_text = Some ''[]''\<rparr>)"
      "\<lparr>response_text = Some ''[]''\<rparr>" JSON_parse_literals "JArr []" "[]"]
  by (simp add: configured_def service_after_def is503_overloaded text_or_default_def
      JSON_parse_literals_def backoff_def BASE_DELAY_MS_def upt_rec)

text \<open>
  C2: when the API key is configured and each of the first four calls fails with a
  transient error, \<open>processCurrentAffairs\<close> makes exactly four calls, with waits of 5000,
  10000 and 20000 milliseconds between them, and then throws the error of the fourth
  call: the last event is that call, with no wait after it and no fifth call.
\<close>

theorem four_transient_failures:
  assumes "configured apiKey"
    and "\<forall>i<3. \<exists>err. service i = Throws err \<and> is503 err"
    and "service 3 = Throws err3" and "is503 err3"
  shows "processCurrentAffairs JSON_parse apiKey service files =
           (Inl err3,
            [GenerateContent (requestConfig files), SetTimeout 5000,
             GenerateContent (requestConfig files), SetTimeout 10000,
             GenerateContent (requestConfig files), SetTimeout 20000,
             GenerateContent (requestConfig files)])
         \<and> attempts (snd (processCurrentAffairs JSON_parse apiKey service files)) = 4
         \<and> delays (snd (processCurrentAffairs JSON_parse apiKey service files)) =
             [5000, 10000, 20000]
         \<and> last (snd (processCurrentAffairs JSON_parse apiKey service files)) =
             GenerateContent (requestConfig files)"
proof -
  let ?req = "requestConfig files"
  have final: "retry_loop JSON_parse service ?req js_undefined (0 + 3) =
                 (Inl err3, [GenerateContent ?req])"
    using retry_loop_rethrows [of 3 service err3 JSON_parse ?req js_undefined] assms(3)
    by (simp add: MAX_RETRIES_def)
  have "processCurrentAffairs JSON_parse apiKey service files =
          (Inl err3, concat (map (backoff ?req) [0..<0 + 3]) @ [GenerateContent ?req])"
    using retry_loop_transient [of 0 3 service JSON_parse ?req js_undefined js_undefined]
      assms(1,2) final
    by (simp add: processCurrentAffairs_def MAX_RETRIES_def)
  then show ?thesis
    by (simp add: backoff_def BASE_DELAY_MS_def upt_rec)
qed

theorem four_transient_failures_witness:
  "processCurrentAffairs JSON_parse_literals (Some ''key'')
     (service_after 4 (Returns \<lparr>response_text = Some ''[]''\<rparr>)) [] =
     (Inl overload_error,
      [GenerateContent (requestConfig []), SetTimeout 5000,
       GenerateContent (requestConfig []), SetTimeout 10000,
       GenerateContent (requestConfig []), SetTimeout 20000,
       GenerateContent (requestConfig [])])
   \<and> attempts (snd (processCurrentAffairs JSON_parse_literals (Some ''key'')
        (service_after 4 (Returns \<lparr>response_text = Some ''[]''\<rparr>)) [])) = 4"
  using four_transient_failures [of "Some ''key''"
      "service_after 4 (Returns \<lparr>response_text = Some ''[]''\<rparr>)" overload_error
      JSON_parse_literals "[]"]
  by (simp add: configured_def service_after_def is503_overloaded)

text \<open>
  C3, as the specification states it (the waits of one execution add up to at most 15
  seconds), fails: after three transient failures the function has waited
  5 + 10 + 20 = 35 seconds.
\<close>

theorem cumulative_backoff_counterexample:
  "sum_list (delays (snd (processCurrentAffairs JSON_parse_literals (Some ''key'')
     (service_after 3 (Returns \<lparr>response_text = Some ''[]''\<rparr>)) []))) = 35000
   \<and> \<not> sum_list (delays (snd (processCurrentAffairs JSON_parse_literals (Some ''key'')
     (service_after 3 (Returns \<lparr>response_text = Some ''[]''\<rparr>)) []))) \<le> 15000"
  by (simp add: processCurrentAffairs_def configured_def retry_loop.simps MAX_RETRIES_def
      BASE_DELAY_MS_def try_body_def service_after_def is503_overloaded text_or_default_def
      JSON_parse_literals_def)

text \<open>
  C3, amended: in every execution of \<open>processCurrentAffairs\<close> the waits add up to at most
  35000 milliseconds.
\<close>

theorem cumulative_backoff_bound:
  "sum_list (delays (snd (processCurrentAffairs JSON_parse apiKey service files))) \<le> 35000"
  using retry_loop_delay_bound [of JSON_parse service "requestConfig files" js_undefined 0]
  by (simp add: processCurrentAffairs_def BASE_DELAY_MS_def)

theorem cumulative_backoff_bound_witness:
  "sum_list (delays (snd (processCurrentAffairs JSON_parse_literals (Some ''key'')
     (service_after 4 (Returns \<lparr>response_text = Some ''[]''\<rparr>)) []))) \<le> 35000"
  using cumulative_backoff_bound [of JSON_parse_literals "Some ''key''"
      "service_after 4 (Returns \<lparr>response_text = Some ''[]''\<rparr>)" "[]"]
  by simp

text \<open>
  C4: when the API key is configured and the first call throws an error outside the
  trigger set (neither its status nor its code is the number 503, and its message, if
  it is a string, contains neither \<^verbatim>\<open>503\<close> nor, in lower case, \<^verbatim>\<open>unavailable\<close> or
  \<^verbatim>\<open>high demand\<close>), \<open>processCurrentAffairs\<close> throws that error after exactly one call and
  no wait.
\<close>

theorem non_transient_first_error:
  assumes "configured apiKey" and "service 0 = Throws err"
    and "status err \<noteq> Num 503" and "code err \<noteq> Num 503"
    and "\<forall>m. message err = Str m \<longrightarrow>
           \<not> str_includes m ''503'' \<and> \<not> str_includes (toLowerCase m) ''unavailable''
           \<and> \<not> str_includes (toLowerCase m) ''high demand''"
  shows "processCurrentAffairs JSON_parse apiKey service files =
           (Inl err, [GenerateContent (requestConfig files)])
         \<and> attempts (snd (processCurrentAffairs JSON_parse apiKey service files)) = 1
         \<and> delays (snd (processCurrentAffairs JSON_parse apiKey service files)) = []"
proof -
  have "\<not> is503 err"
    using assms(3,4,5) by (auto simp add: is503_def message_includes_def split: jsval.splits)
  then have "retry_loop JSON_parse service (requestConfig files) js_undefined 0 =
               (Inl err, [GenerateContent (requestConfig files)])"
    using retry_loop_rethrows [of 0 service err JSON_parse "requestConfig files" js_undefined]
      assms(2)
    by (simp add: MAX_RETRIES_def)
  then show ?thesis
    using assms(1) by (simp add: processCurrentAffairs_def)
qed

theorem non_transient_first_error_witness:
  "processCurrentAffairs JSON_parse_literals (Some ''key'') (\<lambda>n. Throws bad_request_error) [] =
     (Inl bad_request_error, [GenerateContent (requestConfig [])])
   \<and> attempts (snd (processCurrentAffairs JSON_parse_literals (Some ''key'')
        (\<lambda>n. Throws bad_request_error) [])) = 1
   \<and> delays (snd (processCurrentAffairs JSON_parse_literals (Some ''key'')
        (\<lambda>n. Throws bad_request_error) [])) = []"
  using non_transient_first_error [of "Some ''key''" "\<lambda>n. Throws bad_request_error"
      bad_request_error JSON_parse_literals "[]"]
  by (simp add: configured_def bad_request_error_def toLowerCase_def toLowerCase_char_def)

text \<open>
  C5, as the specification states it (a body that is not valid per the declared schema
  raises the format error), fails: the body \<^verbatim>\<open>{}\<close> is JSON but not an array of news
  items, and \<open>processCurrentAffairs\<close> returns the parsed object.
\<close>

theorem schema_violation_counterexample:
  "JSON_parse_literals ''{}'' = Inr (JObj [])
   \<and> \<not> responseSchema (JObj [])
   \<and> processCurrentAffairs JSON_parse_literals (Some ''key'')
       (\<lambda>n. Returns \<lparr>response_text = Some ''{}''\<rparr>) [] =
       (Inr (JObj []), [GenerateContent (requestConfig [])])"
  by (simp add: processCurrentAffairs_def configured_def retry_loop.simps MAX_RETRIES_def
      try_body_def text_or_default_def JSON_parse_literals_def)

text \<open>
  C5, amended: take the response that ends the retries, the API key being configured.
  When its body is not empty and \<^verbatim>\<open>JSON.parse\<close> throws on it, \<open>processCurrentAffairs\<close>
  throws the \<^verbatim>\<open>Error\<close> with the message
  \<^verbatim>\<open>Failed to process content into structured format.\<close>, which is not the parser's
  \<^verbatim>\<open>SyntaxError\<close>, and makes no further call. When its body is not empty and
  \<^verbatim>\<open>JSON.parse\<close> returns a value, that value is returned as it is, valid per the declared
  schema or not. When its body is undefined or empty, the text \<^verbatim>\<open>[]\<close> is parsed in its
  place and what \<^verbatim>\<open>JSON.parse\<close> returns for it is returned.
\<close>

theorem unparsable_body_format_error:
  assumes "configured apiKey" and "k \<le> 3"
    and "\<forall>i<k. \<exists>err. service i = Throws err \<and> is503 err"
    and "service k = Returns response"
  shows "(\<forall>t. response_text response = Some t \<and> t \<noteq> [] \<longrightarrow>
            (\<forall>e. JSON_parse t = Inl e \<longrightarrow>
               processCurrentAffairs JSON_parse apiKey service files =
                 (Inl (new_Error ''Failed to process content into structured format.''),
                  concat (map (backoff (requestConfig files)) [0..<k])
                    @ [GenerateContent (requestConfig files)])
               \<and> (ename e = ''SyntaxError'' \<longrightarrow>
                     fst (processCurrentAffairs JSON_parse apiKey service files) \<noteq> Inl e))
            \<and> (\<forall>v. JSON_parse t = Inr v \<longrightarrow>
                 processCurrentAffairs JSON_parse apiKey service files =
                   (Inr v,
                    concat (map (backoff (requestConfig files)) [0..<k])
                      @ [GenerateContent (requestConfig files)])))
         \<and> (response_text response = None \<or> response_text response = Some [] \<longrightarrow>
              (\<forall>v. JSON_parse ''[]'' = Inr v \<longrightarrow>
                 processCurrentAffairs JSON_parse apiKey service files =
                   (Inr v,
                    concat (map (backoff (requestConfig files)) [0..<k])
                      @ [GenerateContent (requestConfig files)])))"
proof -
  let ?req = "requestConfig files"
  let ?evs = "concat (map (backoff ?req) [0..<k]) @ [GenerateContent ?req]"
  let ?run = "processCurrentAffairs JSON_parse apiKey service files"
  have k: "0 + k < MAX_RETRIES"
    using assms(2) by (simp add: MAX_RETRIES_def)
  have prefix: "?run =
      (fst (retry_loop JSON_parse service ?req js_undefined (0 + k)),
       concat (map (backoff ?req) [0..<k])
         @ snd (retry_loop JSON_parse service ?req js_undefined (0 + k)))"
    using retry_loop_transient [of 0 k service JSON_parse ?req js_undefined js_undefined]
      k assms(1,3)
    by (simp add: processCurrentAffairs_def)
  have throws: "?run = (Inl format_error, ?evs)"
    if "JSON_parse (text_or_default response) = Inl e" for e
    using retry_loop_unparsable [of k service response JSON_parse e ?req js_undefined]
      k assms(4) that prefix
    by simp
  have returns: "?run = (Inr v, ?evs)"
    if "JSON_parse (text_or_default response) = Inr v" for v
    using retry_loop_returns [of k service response JSON_parse v ?req js_undefined]
      k assms(4) that prefix
    by simp
  have body: "text_or_default response = t"
    if "response_text response = Some t" "t \<noteq> []" for t
    using that by (simp add: text_or_default_def)
  have no_body: "text_or_default response = ''[]''"
    if "response_text response = None \<or> response_text response = Some []"
    using that by (auto simp add: text_or_default_def)
  have other: "Inl format_error \<noteq> (Inl e :: js_error + json)"
    if "ename e = ''SyntaxError''" for e
    using that by (auto simp add: format_error_def new_Error_def)
  have "?run = (Inl (new_Error ''Failed to process content into structured format.''), ?evs)
        \<and> (ename e = ''SyntaxError'' \<longrightarrow> fst ?run \<noteq> Inl e)"
    if "response_text response = Some t" "t \<noteq> []" "JSON_parse t = Inl e" for t e
    using throws [of e] body [OF that(1,2)] that(3) other [of e]
    by (simp add: format_error_def)
  moreover have "?run = (Inr v, ?evs)"
    if "response_text response = Some t" "t \<noteq> []" "JSON_parse t = Inr v" for t v
    using returns [of v] body [OF that(1,2)] that(3) by simp
  moreover have "?run = (Inr v, ?evs)"
    if "response_text response = None \<or> response_text response = Some []"
      "JSON_parse ''[]'' = Inr v" for v
    using returns [of v] no_body [OF that(1)] that(2) by simp
  ultimately show ?thesis
    by blast
qed

theorem unparsable_body_format_error_witness:
  "processCurrentAffairs JSON_parse_literals (Some ''key'')
     (service_after 1 (Returns \<lparr>response_text = Some ''Sorry, I cannot help.''\<rparr>)) [] =
     (Inl (new_Error ''Failed to process content into structured format.''),
      [GenerateContent (requestConfig []), SetTimeout 5000, GenerateContent (requestConfig [])])
   \<and> fst (processCurrentAffairs JSON_parse_literals (Some ''key'')
       (service_after 1 (Returns \<lparr>response_text = Some ''Sorry, I cannot help.''\<rparr>)) [])
       \<noteq> Inl syntax_error
   \<and> processCurrentAffairs JSON_parse_literals (Some ''key'')
       (service_after 0 (Returns \<lparr>response_text = Some ''{}''\<rparr>)) [] =
       (Inr (JObj []), [GenerateContent (requestConfig [])])
   \<and> processCurrentAffairs JSON_parse_literals (Some ''key'')
       (service_after 0 (Returns \<lparr>response_text = Some []\<rparr>)) [] =
       (Inr (JArr []), [GenerateContent (requestConfig [])])"
  using
    unparsable_body_format_error [of "Some ''key''" 1
      "service_after 1 (Returns \<lparr>response_text = Some ''Sorry, I cannot help.''\<rparr>)"
      "\<lparr>response_text = Some ''Sorry, I cannot help.''\<rparr>" JSON_parse_literals "[]"]
    unparsable_body_format_error [of "Some ''key''" 0
      "service_after 0 (Returns \<lparr>response_text = Some ''{}''\<rparr>)"
      "\<lparr>response_text = Some ''{}''\<rparr>" JSON_parse_literals "[]"]
    unparsable_body_format_error [of "Some ''key''" 0
      "service_after 0 (Returns \<lparr>response_text = Some []\<rparr>)"
      "\<lparr>response_text = Some []\<rparr>" JSON_parse_literals "[]"]
  by (simp add: configured_def service_after_def is503_overloaded JSON_parse_literals_def
      backoff_def BASE_DELAY_MS_def syntax_error_def new_Error_def)

text \<open>
  C6: when the API key is configured and the response that ends the retries parses to
  the empty array, \<open>processCurrentAffairs\<close> returns the empty array (a value, \<open>Inr\<close>),
  which is valid per the declared schema, and throws nothing.
\<close>

theorem empty_array_is_success:
  assumes "configured apiKey" and "k \<le> 3"
    and "\<forall>i<k. \<exists>err. service i = Throws err \<and> is503 err"
    and "service k = Returns response"
    and "JSON_parse (text_or_default response) = Inr (JArr [])"
  shows "fst (processCurrentAffairs JSON_parse apiKey service files) = Inr (JArr [])
         \<and> responseSchema (JArr [])"
proof -
  let ?req = "requestConfig files"
  have k: "0 + k < MAX_RETRIES"
    using assms(2) by (simp add: MAX_RETRIES_def)
  have "retry_loop JSON_parse service ?req js_undefined (0 + k) =
          (Inr (JArr []), [GenerateContent ?req])"
    using retry_loop_returns [of k service response JSON_parse "JArr []" ?req js_undefined]
      k assms(4,5)
    by simp
  then have "fst (retry_loop JSON_parse service ?req js_undefined 0) = Inr (JArr [])"
    using retry_loop_transient [of 0 k service JSON_parse ?req js_undefined js_undefined]
      k assms(3)
    by simp
  then show ?thesis
    using assms(1) by (simp add: processCurrentAffairs_def)
qed

theorem empty_array_is_success_witness:
  "fst (processCurrentAffairs JSON_parse_literals (Some ''key'')
     (\<lambda>n. Returns \<lparr>response_text = None\<rparr>) []) = Inr (JArr [])"
  using empty_array_is_success [of "Some ''key''" 0 "\<lambda>n. Returns \<lparr>response_text = None\<rparr>"
      "\<lparr>response_text = None\<rparr>" JSON_parse_literals "[]"]
  by (simp add: configured_def text_or_default_def JSON_parse_literals_def)

text \<open>
  C7: for a request that carries session tokens and a list of news items, every call the
  handler makes to the spreadsheet service appends, to the range
  \<^verbatim>\<open>Current Affairs!A:F\<close>, one row per item, in the order of the list; a row has the six
  columns title, subTitle, date, headline, the content joined by newlines, and the
  staticGk joined by newlines or, when that list is empty, the text \<^verbatim>\<open>Not applicable\<close>.
  With the spreadsheet identifier configured the handler makes exactly one such call.
\<close>

theorem sheet_rows_per_item:
  assumes "has_tokens req" and "body_data req = Some items"
  shows "(\<forall>call \<in> set (snd (sheets_update SPREADSHEET_ID sheets_append req)).
            requestBody_values call = map sheet_row items
            \<and> range_A1 call = ''Current Affairs!A:F'')
         \<and> (configured SPREADSHEET_ID \<longrightarrow>
               length (snd (sheets_update SPREADSHEET_ID sheets_append req)) = 1)
         \<and> length (map sheet_row items) = length items
         \<and> (\<forall>i<length items.
               map sheet_row items ! i =
                 [title (items ! i), subTitle (items ! i), date (items ! i), headline (items ! i),
                  join ''\<newline>'' (content (items ! i)),
                  if staticGk (items ! i) = [] then ''Not applicable''
                  else join ''\<newline>'' (staticGk (items ! i))])"
proof -
  have calls: "\<forall>call \<in> set (snd (sheets_update SPREADSHEET_ID sheets_append req)).
            requestBody_values call = map sheet_row items
            \<and> range_A1 call = ''Current Affairs!A:F''"
    using assms
    by (auto simp add: sheets_update_def Let_def split: option.splits if_splits
        append_outcome.splits)
  have one: "configured SPREADSHEET_ID \<longrightarrow>
               length (snd (sheets_update SPREADSHEET_ID sheets_append req)) = 1"
    using assms
    by (auto simp add: sheets_update_def configured_def Let_def
        split: option.splits append_outcome.splits)
  have rows: "\<forall>i<length items.
               map sheet_row items ! i =
                 [title (items ! i), subTitle (items ! i), date (items ! i), headline (items ! i),
                  join ''\<newline>'' (content (items ! i)),
                  if staticGk (items ! i) = [] then ''Not applicable''
                  else join ''\<newline>'' (staticGk (items ! i))]"
    by (simp add: sheet_row_def)
  from calls one rows show ?thesis
    by simp
qed

theorem sheet_rows_per_item_witness:
  "snd (sheets_update (Some ''sheet-1'') (\<lambda>call. Resolves) sample_request) =
     [Append ''sheet-1'' ''Current Affairs!A:F'' ''USER_ENTERED''
        [[''BANKING & FINANCE'', ''RBI'', ''18 February 2026'',
          ''RBI keeps the repo rate unchanged'',
          ''The repo rate stays at 6.5%.\<newline>The stance is neutral.'', ''Not applicable'']]]
   \<and> map sheet_row [sample_item] ! 0 =
       [''BANKING & FINANCE'', ''RBI'', ''18 February 2026'',
        ''RBI keeps the repo rate unchanged'',
        ''The repo rate stays at 6.5%.\<newline>The stance is neutral.'', ''Not applicable'']"
  using sheet_rows_per_item [of sample_request "[sample_item]" "Some ''sheet-1''"
      "\<lambda>call. Resolves"]
  by (simp add: has_tokens_def sample_request_def sample_item_def sheets_update_def
      sheet_row_def)

text \<open>
  C8: a request without a session, or with a session that holds no tokens, is answered
  with the status 401 and the error \<^verbatim>\<open>Unauthorized\<close>, and the handler makes no call to
  the spreadsheet service.
\<close>

theorem append_requires_session:
  assumes "session req = None \<or> (\<exists>s. session req = Some s \<and> tokens s = None)"
  shows "sheets_update SPREADSHEET_ID sheets_append req =
           (Some \<lparr>status_code = 401, json_body = ErrorBody (Str ''Unauthorized'')\<rparr>, [])"
  using assms by (auto simp add: sheets_update_def has_tokens_def)

theorem append_requires_session_witness:
  "sheets_update (Some ''sheet-1'') (\<lambda>call. Resolves)
     \<lparr>session = Some \<lparr>tokens = None\<rparr>, body_data = Some [sample_item]\<rparr> =
     (Some \<lparr>status_code = 401, json_body = ErrorBody (Str ''Unauthorized'')\<rparr>, [])"
  using append_requires_session [of
      "\<lparr>session = Some \<lparr>tokens = None\<rparr>, body_data = Some [sample_item]\<rparr>"
      "Some ''sheet-1''" "\<lambda>call. Resolves"]
  by simp

text \<open>
  C10, as stated (for a data string with a comma the payload is everything after the first
  comma), fails: of \<^verbatim>\<open>a,b,c\<close> the function sends \<^verbatim>\<open>b\<close>, not \<^verbatim>\<open>b,c\<close>.
\<close>

theorem payload_after_first_comma_counterexample:
  "CHR '','' \<in> set ''a,b,c''
   \<and> after_first_comma ''a,b,c'' = ''b,c''
   \<and> snd (processCurrentAffairs JSON_parse_literals (Some ''key'')
        (\<lambda>n. Returns \<lparr>response_text = Some ''[]''\<rparr>)
        [\<lparr>data = ''a,b,c'', mimeType = ''application/pdf''\<rparr>]) =
       [GenerateContent
          \<lparr>model = ''gemini-3-flash-preview'',
           parts = [InlineData ''b'' ''application/pdf'', SystemPromptText]\<rparr>]"
  by (simp add: processCurrentAffairs_def configured_def retry_loop.simps MAX_RETRIES_def
      try_body_def text_or_default_def JSON_parse_literals_def requestConfig_def file_parts_def
      inline_payload_def after_first_comma_def)

text \<open>
  C10, amended: in every request that \<open>processCurrentAffairs\<close> sends, the part number \<open>i\<close>
  carries the media type of the file number \<open>i\<close>, and its payload is the whole data
  string when that has no comma, and the text between the first comma and the next one
  (or the end of the string) when the data string has a comma and that text is not
  empty.
\<close>

theorem payload_is_second_segment:
  assumes "GenerateContent req \<in> set (snd (processCurrentAffairs JSON_parse apiKey service files))"
    and "i < length files"
  shows "\<exists>payload. parts req ! i = InlineData payload (mimeType (files ! i))
           \<and> (CHR '','' \<notin> set (data (files ! i)) \<longrightarrow> payload = data (files ! i))
           \<and> (CHR '','' \<in> set (data (files ! i)) \<and> second_segment (data (files ! i)) \<noteq> []
                \<longrightarrow> payload = second_segment (data (files ! i)))"
proof -
  have "configured apiKey"
    using assms(1) by (auto simp add: processCurrentAffairs_def split: if_splits)
  then have "GenerateContent req
      \<in> set (snd (retry_loop JSON_parse service (requestConfig files) js_undefined 0))"
    using assms(1) by (simp add: processCurrentAffairs_def)
  then have "req = requestConfig files"
    using retry_loop_requests by blast
  then have "parts req ! i =
               InlineData (inline_payload (data (files ! i))) (mimeType (files ! i))"
    using assms(2) by (simp add: requestConfig_def file_parts_def nth_append)
  then show ?thesis
    using inline_payload_no_comma inline_payload_comma by blast
qed

theorem payload_is_second_segment_witness:
  "parts (requestConfig [pdf_file]) ! 0 = InlineData ''JVBERi0xLjQK'' ''application/pdf''"
  using payload_is_second_segment [of "requestConfig [pdf_file]" JSON_parse_literals
      "Some ''key''" "\<lambda>n. Returns \<lparr>response_text = Some ''[]''\<rparr>" "[pdf_file]" 0]
  by (simp add: processCurrentAffairs_def configured_def retry_loop.simps MAX_RETRIES_def
      try_body_def text_or_default_def JSON_parse_literals_def pdf_file_def
      second_segment_def after_first_comma_def)

end
